theory Spec2Isabelle
  imports Main "HOL-Library.Sublist"
begin

section \<open>Syntax tree\<close>

text \<open>
  The pass of \<^verbatim>\<open>mypy/semanal_pass1.py\<close> walks the statements of one module.
  Every node carries a start line and an optional end line (\<^verbatim>\<open>Context\<close> of
  \<^verbatim>\<open>mypy.nodes\<close>). Expressions are opaque to the pass: they are the type
  parameter \<open>'e\<close>.
\<close>

record Context =
  line :: int
  end_line :: "int option"

text \<open>
  The statement kinds the visitor overrides, an assert (inspected by the truncation
  rule), and \<open>WhileStmt\<close> as a statement kind that is left to the default traversal.
  The last argument of the three import kinds is \<^verbatim>\<open>is_top_level\<close>; the second
  argument of \<open>Block\<close> is \<^verbatim>\<open>is_unreachable\<close>. In \<^verbatim>\<open>mypy.nodes\<close> a block is
  itself a statement, which \<open>BlockStmt\<close> renders. The patterns of a match statement
  are never visited by this pass and are left out.
\<close>

datatype 'e stmt =
    AssertStmt Context 'e "'e option"
  | AssignmentStmt Context "'e list" 'e
  | ExpressionStmt Context 'e
  | ReturnStmt Context "'e option"
  | Import Context "string list" bool
  | ImportFrom Context string "string list" bool
  | ImportAll Context string bool
  | IfStmt Context "'e list" "'e block list" "'e block option"
  | ForStmt Context 'e 'e "'e block" "'e block option"
  | WhileStmt Context 'e "'e block" "'e block option"
  | MatchStmt Context 'e "'e option list" "'e block list"
  | FuncDef Context string "'e block"
  | ClassDef Context string "'e block"
  | BlockStmt "'e block"
and 'e block =
    Block Context bool "'e stmt list"

fun block_context :: "'e block \<Rightarrow> Context" where
  "block_context (Block c u ss) = c"

fun is_unreachable :: "'e block \<Rightarrow> bool" where
  "is_unreachable (Block c u ss) = u"

fun body :: "'e block \<Rightarrow> 'e stmt list" where
  "body (Block c u ss) = ss"

fun stmt_context :: "'e stmt \<Rightarrow> Context" where
  "stmt_context (AssertStmt c e m) = c"
| "stmt_context (AssignmentStmt c ls r) = c"
| "stmt_context (ExpressionStmt c e) = c"
| "stmt_context (ReturnStmt c r) = c"
| "stmt_context (Import c ids t) = c"
| "stmt_context (ImportFrom c m ids t) = c"
| "stmt_context (ImportAll c m t) = c"
| "stmt_context (IfStmt c es bs eb) = c"
| "stmt_context (ForStmt c i e b eb) = c"
| "stmt_context (WhileStmt c e b eb) = c"
| "stmt_context (MatchStmt c e gs bs) = c"
| "stmt_context (FuncDef c n b) = c"
| "stmt_context (ClassDef c n b) = c"
| "stmt_context (BlockStmt b) = block_context b"

fun is_AssertStmt :: "'e stmt \<Rightarrow> bool" where
  "is_AssertStmt (AssertStmt c e m) = True"
| "is_AssertStmt s = False"

record options =
  platform :: string
  python_version :: "int \<times> int"

record 'e MypyFile =
  defs :: "'e stmt list"
  is_stub :: bool
  is_package_init_file :: bool
  is_partial_stub_package :: bool
  file_skipped_lines :: "int set"

section \<open>The reachability functions the pass calls\<close>

text \<open>
  \<^verbatim>\<open>mypy.reachability\<close> is not part of the sources at hand; its three functions are
  parameters of the walker. Following the interface of the specification, the
  function for a conditional returns one tag for each arm (by position) and one for
  the else block, and the function for a match statement one tag for each case; the
  walker writes them to the blocks before it descends.
\<close>

record 'e reachability =
  assert_will_always_fail :: "'e stmt \<Rightarrow> options \<Rightarrow> bool"
  infer_reachability_of_if_statement :: "'e stmt \<Rightarrow> options \<Rightarrow> (nat \<Rightarrow> bool) \<times> bool"
  infer_reachability_of_match_statement :: "'e stmt \<Rightarrow> options \<Rightarrow> nat \<Rightarrow> bool"

fun set_unreachable :: "bool \<Rightarrow> 'e block \<Rightarrow> 'e block" where
  "set_unreachable t (Block c u ss) = Block c t ss"

fun tag_blocks :: "(nat \<Rightarrow> bool) \<Rightarrow> nat \<Rightarrow> 'e block list \<Rightarrow> 'e block list" where
  "tag_blocks f i [] = []"
| "tag_blocks f i (b # bs) = set_unreachable (f i) b # tag_blocks f (Suc i) bs"

section \<open>Visitor state\<close>

text \<open>
  The attributes of \<^verbatim>\<open>SemanticAnalyzerPreAnalysis\<close>. \<open>self_platform\<close> and
  \<open>self_options\<close> are \<^verbatim>\<open>self.platform\<close> and \<^verbatim>\<open>self.options\<close>. \<open>cur_mod_node\<close>
  holds the module's own fields; the statements being walked are threaded through
  the walker by value. \<open>visited\<close> is not an attribute of the class: it logs every
  node on which \<^verbatim>\<open>accept\<close> is called, in call order, each as it is at the
  moment of the call.
\<close>

datatype 'e node = StmtNode "'e stmt" | BlockNode "'e block" | ExprNode 'e

record 'e visitor =
  self_platform :: string
  cur_mod_id :: string
  cur_mod_node :: "'e MypyFile"
  self_options :: options
  is_global_scope :: bool
  skipped_lines :: "int set"
  visited :: "'e node list"

definition enter :: "'e node \<Rightarrow> 'e visitor \<Rightarrow> 'e visitor" where
  "enter n st = st\<lparr>visited := visited st @ [n]\<rparr>"

text \<open>
  Modelled from the spec: the default traversal of \<^verbatim>\<open>mypy.traverser.TraverserVisitor\<close>
  is not among the sources. Guard expressions are opaque to the pass and contain no
  statement, import or block, so visiting an expression only records the visit.
\<close>

definition visit_expr :: "'e \<Rightarrow> 'e visitor \<Rightarrow> 'e visitor" where
  "visit_expr e st = enter (ExprNode e) st"

fun visit_opt_expr :: "'e option \<Rightarrow> 'e visitor \<Rightarrow> 'e visitor" where
  "visit_opt_expr None st = st"
| "visit_opt_expr (Some e) st = visit_expr e st"

definition range_set :: "int \<Rightarrow> int \<Rightarrow> int set" where
  "range_set a b = {a..<b}"

text \<open>Writing a tag does not change the size of a block, by which the walker recurses.\<close>

lemma size_set_unreachable: "size (set_unreachable t b) = size b"
  by (cases b) simp

lemma size_tag_blocks: "size_list size (tag_blocks f i bs) = size_list size bs"
  by (induction bs arbitrary: i) (simp_all add: size_set_unreachable)

lemma size_option_set_unreachable:
  "size_option size (map_option (set_unreachable t) eb) = size_option size eb"
  by (cases eb) (simp_all add: size_set_unreachable)

section \<open>The walker\<close>

text \<open>
  \<open>accept\<close> is \<^verbatim>\<open>node.accept(self)\<close> on a statement: it dispatches to the visit
  method of the node's class, the override of \<^verbatim>\<open>SemanticAnalyzerPreAnalysis\<close>
  where there is one. It returns the node as the call leaves it and the visitor's
  new state; a nested call's result is bound to one name, with the node its first
  and the state its second component.

  Modelled from the spec: where the class calls \<^verbatim>\<open>super()\<close> or has no override
  (assert, while, block), the default traversal descends into every child: the body
  of a function or class definition, the statements of a block in order, the
  condition of a while loop and then its blocks, the condition and then the message
  of an assert; the import kinds have no children.
\<close>

function accept :: "'e reachability \<Rightarrow> 'e stmt \<Rightarrow> 'e visitor \<Rightarrow> 'e stmt \<times> 'e visitor"
and visit_block :: "'e reachability \<Rightarrow> 'e block \<Rightarrow> 'e visitor \<Rightarrow> 'e block \<times> 'e visitor"
and visit_opt_block :: "'e reachability \<Rightarrow> 'e block option \<Rightarrow> 'e visitor \<Rightarrow> 'e block option \<times> 'e visitor"
and visit_stmts :: "'e reachability \<Rightarrow> 'e stmt list \<Rightarrow> 'e visitor \<Rightarrow> 'e stmt list \<times> 'e visitor"
and visit_blocks :: "'e reachability \<Rightarrow> 'e block list \<Rightarrow> 'e visitor \<Rightarrow> 'e block list \<times> 'e visitor"
where
  "accept R (AssertStmt c e m) st =
     (AssertStmt c e m, visit_opt_expr m (visit_expr e (enter (StmtNode (AssertStmt c e m)) st)))"
| "accept R (AssignmentStmt c ls r) st =
     (AssignmentStmt c ls r, enter (StmtNode (AssignmentStmt c ls r)) st)"
| "accept R (ExpressionStmt c e) st =
     (ExpressionStmt c e, enter (StmtNode (ExpressionStmt c e)) st)"
| "accept R (ReturnStmt c r) st =
     (ReturnStmt c r, enter (StmtNode (ReturnStmt c r)) st)"
| "accept R (Import c ids t) st =
     (Import c ids (is_global_scope st), enter (StmtNode (Import c ids t)) st)"
| "accept R (ImportFrom c m ids t) st =
     (ImportFrom c m ids (is_global_scope st), enter (StmtNode (ImportFrom c m ids t)) st)"
| "accept R (ImportAll c m t) st =
     (ImportAll c m (is_global_scope st), enter (StmtNode (ImportAll c m t)) st)"
| "accept R (IfStmt c es bs eb) st =
     (let st0 = enter (StmtNode (IfStmt c es bs eb)) st;
          tags = infer_reachability_of_if_statement R (IfStmt c es bs eb) (self_options st0);
          st1 = fold visit_expr es st0;
          bodies = visit_blocks R (tag_blocks (fst tags) 0 bs) st1;
          else_body = visit_opt_block R (map_option (set_unreachable (snd tags)) eb) (snd bodies)
      in (IfStmt c es (fst bodies) (fst else_body), snd else_body))"
| "accept R (ForStmt c i e b eb) st =
     (let st0 = enter (StmtNode (ForStmt c i e b eb)) st;
          body' = visit_block R b st0;
          else_body = visit_opt_block R eb (snd body')
      in (ForStmt c i e (fst body') (fst else_body), snd else_body))"
| "accept R (WhileStmt c e b eb) st =
     (let st0 = visit_expr e (enter (StmtNode (WhileStmt c e b eb)) st);
          body' = visit_block R b st0;
          else_body = visit_opt_block R eb (snd body')
      in (WhileStmt c e (fst body') (fst else_body), snd else_body))"
| "accept R (MatchStmt c e gs bs) st =
     (let st0 = enter (StmtNode (MatchStmt c e gs bs)) st;
          tags = infer_reachability_of_match_statement R (MatchStmt c e gs bs) (self_options st0);
          st1 = fold visit_opt_expr gs st0;
          bodies = visit_blocks R (tag_blocks tags 0 bs) st1
      in (MatchStmt c e gs (fst bodies), snd bodies))"
| "accept R (FuncDef c name b) st =
     (let st0 = enter (StmtNode (FuncDef c name b)) st;
          old_global_scope = is_global_scope st0;
          body' = visit_block R b (st0\<lparr>is_global_scope := False\<rparr>);
          st1 = (snd body')\<lparr>is_global_scope := old_global_scope\<rparr>;
          file_node = cur_mod_node st1
      in (FuncDef c name (fst body'),
          if is_global_scope st1 \<and> is_stub file_node \<and> name = ''__getattr__''
             \<and> is_package_init_file file_node
          then st1\<lparr>cur_mod_node := file_node\<lparr>is_partial_stub_package := True\<rparr>\<rparr>
          else st1))"
| "accept R (ClassDef c name b) st =
     (let st0 = enter (StmtNode (ClassDef c name b)) st;
          old_global_scope = is_global_scope st0;
          body' = visit_block R b (st0\<lparr>is_global_scope := False\<rparr>)
      in (ClassDef c name (fst body'), (snd body')\<lparr>is_global_scope := old_global_scope\<rparr>))"
| "accept R (BlockStmt b) st =
     (let b' = visit_block R b st in (BlockStmt (fst b'), snd b'))"
| "visit_block R (Block c u ss) st =
     (let st0 = enter (BlockNode (Block c u ss)) st in
      if u then
        (Block c u ss,
         case end_line c of
           Some e \<Rightarrow> st0\<lparr>skipped_lines := skipped_lines st0 \<union> range_set (line c) (e + 1)\<rparr>
         | None \<Rightarrow> st0)
      else (let ss' = visit_stmts R ss st0 in (Block c u (fst ss'), snd ss')))"
| "visit_opt_block R None st = (None, st)"
| "visit_opt_block R (Some b) st = (let b' = visit_block R b st in (Some (fst b'), snd b'))"
| "visit_stmts R [] st = ([], st)"
| "visit_stmts R (s # ss) st =
     (let s' = accept R s st;
          ss' = visit_stmts R ss (snd s')
      in (fst s' # fst ss', snd ss'))"
| "visit_blocks R [] st = ([], st)"
| "visit_blocks R (b # bs) st =
     (let b' = visit_block R b st;
          bs' = visit_blocks R bs (snd b')
      in (fst b' # fst bs', snd bs'))"
  by pat_completeness auto

termination
  by (relation "measure (\<lambda>x. case x of
        Inl (Inl (R, s, st)) \<Rightarrow> size s
      | Inl (Inr (R, b, st)) \<Rightarrow> size b
      | Inr (Inl (R, eb, st)) \<Rightarrow> size_option size eb
      | Inr (Inr (Inl (R, ss, st))) \<Rightarrow> size_list size ss
      | Inr (Inr (Inr (R, bs, st))) \<Rightarrow> size_list size bs)")
     (simp_all add: size_tag_blocks size_option_set_unreachable)

section \<open>The entry point\<close>

text \<open>
  The loop of \<^verbatim>\<open>visit_file\<close> over \<^verbatim>\<open>enumerate(file.defs)\<close>, as a recursion on
  the statements still to come: \<open>defn\<close> is \<^verbatim>\<open>file.defs[i]\<close> and \<open>rest\<close> is
  \<^verbatim>\<open>file.defs[i + 1:]\<close>, so \<^verbatim>\<open>i < len(file.defs) - 1\<close> says that \<open>rest\<close> is
  not empty, \<^verbatim>\<open>file.defs[i + 1]\<close> is \<open>hd rest\<close> and \<^verbatim>\<open>file.defs[-1]\<close> is
  \<open>last rest\<close>. The result is the list \<^verbatim>\<open>file.defs\<close> from position \<open>i\<close> on as
  the loop leaves it: after \<^verbatim>\<open>del file.defs[i + 1:]\<close> and \<^verbatim>\<open>break\<close> only the
  assert remains of it.
\<close>

fun visit_defs :: "'e reachability \<Rightarrow> options \<Rightarrow> 'e stmt list \<Rightarrow> 'e visitor
    \<Rightarrow> 'e stmt list \<times> 'e visitor" where
  "visit_defs R opts [] st = ([], st)"
| "visit_defs R opts (defn # rest) st =
     (let defn' = accept R defn st; st1 = snd defn' in
      if is_AssertStmt (fst defn') \<and> assert_will_always_fail R (fst defn') opts then
        ([fst defn'],
         if rest \<noteq> [] then
           (let next_def = hd rest; last_def = last rest in
            case end_line (stmt_context last_def) of
              Some e \<Rightarrow> st1\<lparr>skipped_lines :=
                  skipped_lines st1 \<union> range_set (line (stmt_context next_def)) (e + 1)\<rparr>
            | None \<Rightarrow> st1)
         else st1)
      else (let ds = visit_defs R opts rest st1 in (fst defn' # fst ds, snd ds)))"

text \<open>
  \<open>self\<close> is the visitor as earlier calls left it. \<open>visit_file_start\<close> is the six
  assignments that open \<^verbatim>\<open>visit_file\<close>; the log \<open>visited\<close> starts empty, so that
  it is the log of this call. The call returns the module node and the visitor;
  \<^verbatim>\<open>self.cur_mod_node\<close> and \<^verbatim>\<open>file\<close> are one object, so the visitor's copy
  is the returned module node.
\<close>

definition visit_file_start :: "'e visitor \<Rightarrow> 'e MypyFile \<Rightarrow> string \<Rightarrow> options \<Rightarrow> 'e visitor" where
  "visit_file_start self file mod_id opts =
     self\<lparr>self_platform := platform opts, cur_mod_id := mod_id,
          cur_mod_node := file, self_options := opts,
          is_global_scope := True, skipped_lines := {}, visited := []\<rparr>"

definition visit_file :: "'e reachability \<Rightarrow> 'e visitor \<Rightarrow> 'e MypyFile \<Rightarrow> string \<Rightarrow> string
    \<Rightarrow> options \<Rightarrow> 'e MypyFile \<times> 'e visitor" where
  "visit_file R self file fnam mod_id opts =
     (let st0 = visit_file_start self file mod_id opts;
          ds = visit_defs R opts (defs file) st0;
          st1 = snd ds;
          file' = (cur_mod_node st1)\<lparr>defs := fst ds, file_skipped_lines := skipped_lines st1\<rparr>
      in (file', st1\<lparr>cur_mod_node := file'\<rparr>))"

section \<open>What the claims speak about\<close>

text \<open>
  The lines \<^verbatim>\<open>set(range(c.line, c.end_line + 1))\<close> of a node, empty when the end
  line is absent.
\<close>

definition span :: "Context \<Rightarrow> int set" where
  "span c = (case end_line c of Some e \<Rightarrow> {line c..e} | None \<Rightarrow> {})"


text \<open>
  The lines of the blocks in a log that were visited with their unreachable tag set.
\<close>

fun pruned_lines :: "'e node list \<Rightarrow> int set" where
  "pruned_lines [] = {}"
| "pruned_lines (BlockNode b # ns) =
     (if is_unreachable b then span (block_context b) else {}) \<union> pruned_lines ns"
| "pruned_lines (n # ns) = pruned_lines ns"

text \<open>
  A top-level statement triggers the truncation rule when it is an assert for which
  \<^verbatim>\<open>assert_will_always_fail\<close> holds.
\<close>

definition failing_assert :: "'e reachability \<Rightarrow> options \<Rightarrow> 'e stmt \<Rightarrow> bool" where
  "failing_assert R opts s = (is_AssertStmt s \<and> assert_will_always_fail R s opts)"

text \<open>
  The top-level tags as the specification wants them, read off a tree after the
  pass: \<open>imports_tagged g s\<close> says that every import-like statement of \<open>s\<close> that
  the walker reaches (none inside a block whose unreachable tag is set) carries the
  tag \<open>g\<close> when it is outside every function and class body of \<open>s\<close>, and
  \<open>False\<close> when it is inside one.
\<close>

fun imports_tagged :: "bool \<Rightarrow> 'e stmt \<Rightarrow> bool"
and imports_tagged_block :: "bool \<Rightarrow> 'e block \<Rightarrow> bool" where
  "imports_tagged g (AssertStmt c e m) = True"
| "imports_tagged g (AssignmentStmt c ls r) = True"
| "imports_tagged g (ExpressionStmt c e) = True"
| "imports_tagged g (ReturnStmt c r) = True"
| "imports_tagged g (Import c ids t) = (t = g)"
| "imports_tagged g (ImportFrom c m ids t) = (t = g)"
| "imports_tagged g (ImportAll c m t) = (t = g)"
| "imports_tagged g (IfStmt c es bs eb) =
     ((\<forall>b \<in> set bs. imports_tagged_block g b) \<and> (\<forall>b \<in> set_option eb. imports_tagged_block g b))"
| "imports_tagged g (ForStmt c i e b eb) =
     (imports_tagged_block g b \<and> (\<forall>b' \<in> set_option eb. imports_tagged_block g b'))"
| "imports_tagged g (WhileStmt c e b eb) =
     (imports_tagged_block g b \<and> (\<forall>b' \<in> set_option eb. imports_tagged_block g b'))"
| "imports_tagged g (MatchStmt c e gs bs) = (\<forall>b \<in> set bs. imports_tagged_block g b)"
| "imports_tagged g (FuncDef c name b) = imports_tagged_block False b"
| "imports_tagged g (ClassDef c name b) = imports_tagged_block False b"
| "imports_tagged g (BlockStmt b) = imports_tagged_block g b"
| "imports_tagged_block g (Block c u ss) = (u \<or> (\<forall>s \<in> set ss. imports_tagged g s))"

text \<open>
  \<open>defines_getattr s\<close>: in the tree \<open>s\<close>, read after the pass, the walker reaches a
  function definition named \<^verbatim>\<open>__getattr__\<close> that is outside every function and
  class body of \<open>s\<close>.
\<close>

fun defines_getattr :: "'e stmt \<Rightarrow> bool"
and defines_getattr_block :: "'e block \<Rightarrow> bool" where
  "defines_getattr (AssertStmt c e m) = False"
| "defines_getattr (AssignmentStmt c ls r) = False"
| "defines_getattr (ExpressionStmt c e) = False"
| "defines_getattr (ReturnStmt c r) = False"
| "defines_getattr (Import c ids t) = False"
| "defines_getattr (ImportFrom c m ids t) = False"
| "defines_getattr (ImportAll c m t) = False"
| "defines_getattr (IfStmt c es bs eb) =
     ((\<exists>b \<in> set bs. defines_getattr_block b) \<or> (\<exists>b \<in> set_option eb. defines_getattr_block b))"
| "defines_getattr (ForStmt c i e b eb) =
     (defines_getattr_block b \<or> (\<exists>b' \<in> set_option eb. defines_getattr_block b'))"
| "defines_getattr (WhileStmt c e b eb) =
     (defines_getattr_block b \<or> (\<exists>b' \<in> set_option eb. defines_getattr_block b'))"
| "defines_getattr (MatchStmt c e gs bs) = (\<exists>b \<in> set bs. defines_getattr_block b)"
| "defines_getattr (FuncDef c name b) = (name = ''__getattr__'')"
| "defines_getattr (ClassDef c name b) = False"
| "defines_getattr (BlockStmt b) = defines_getattr_block b"
| "defines_getattr_block (Block c u ss) = (\<not> u \<and> (\<exists>s \<in> set ss. defines_getattr s))"

text \<open>The lines the truncation rule records for the statements it removes.\<close>

definition removed_lines :: "'e stmt list \<Rightarrow> int set" where
  "removed_lines post =
     (if post = [] then {}
      else span \<lparr>line = line (stmt_context (hd post)), end_line = end_line (stmt_context (last post))\<rparr>)"

text \<open>
  Two module nodes agree on every field but \<^verbatim>\<open>is_partial_stub_package\<close>.
\<close>

definition same_module :: "'e MypyFile \<Rightarrow> 'e MypyFile \<Rightarrow> bool" where
  "same_module f g = (defs f = defs g \<and> is_stub f = is_stub g
     \<and> is_package_init_file f = is_package_init_file g
     \<and> file_skipped_lines f = file_skipped_lines g)"

text \<open>
  The nodes the traversal reaches, in order, as a function of the tree alone: the
  log that \<open>accept\<close> writes, used to reason about it.
\<close>

function trace_stmt :: "'e reachability \<Rightarrow> options \<Rightarrow> 'e stmt \<Rightarrow> 'e node list"
and trace_block :: "'e reachability \<Rightarrow> options \<Rightarrow> 'e block \<Rightarrow> 'e node list"
and trace_opt_block :: "'e reachability \<Rightarrow> options \<Rightarrow> 'e block option \<Rightarrow> 'e node list"
and trace_stmts :: "'e reachability \<Rightarrow> options \<Rightarrow> 'e stmt list \<Rightarrow> 'e node list"
and trace_blocks :: "'e reachability \<Rightarrow> options \<Rightarrow> 'e block list \<Rightarrow> 'e node list"
where
  "trace_stmt R opts (AssertStmt c e m) =
     StmtNode (AssertStmt c e m) # ExprNode e # map ExprNode (case m of None \<Rightarrow> [] | Some x \<Rightarrow> [x])"
| "trace_stmt R opts (AssignmentStmt c ls r) = [StmtNode (AssignmentStmt c ls r)]"
| "trace_stmt R opts (ExpressionStmt c e) = [StmtNode (ExpressionStmt c e)]"
| "trace_stmt R opts (ReturnStmt c r) = [StmtNode (ReturnStmt c r)]"
| "trace_stmt R opts (Import c ids t) = [StmtNode (Import c ids t)]"
| "trace_stmt R opts (ImportFrom c m ids t) = [StmtNode (ImportFrom c m ids t)]"
| "trace_stmt R opts (ImportAll c m t) = [StmtNode (ImportAll c m t)]"
| "trace_stmt R opts (IfStmt c es bs eb) =
     StmtNode (IfStmt c es bs eb) # map ExprNode es
       @ trace_blocks R opts
           (tag_blocks (fst (infer_reachability_of_if_statement R (IfStmt c es bs eb) opts)) 0 bs)
       @ trace_opt_block R opts
           (map_option (set_unreachable
              (snd (infer_reachability_of_if_statement R (IfStmt c es bs eb) opts))) eb)"
| "trace_stmt R opts (ForStmt c i e b eb) =
     StmtNode (ForStmt c i e b eb) # trace_block R opts b @ trace_opt_block R opts eb"
| "trace_stmt R opts (WhileStmt c e b eb) =
     StmtNode (WhileStmt c e b eb) # ExprNode e # trace_block R opts b @ trace_opt_block R opts eb"
| "trace_stmt R opts (MatchStmt c e gs bs) =
     StmtNode (MatchStmt c e gs bs) # map ExprNode (List.map_filter id gs)
       @ trace_blocks R opts
           (tag_blocks (infer_reachability_of_match_statement R (MatchStmt c e gs bs) opts) 0 bs)"
| "trace_stmt R opts (FuncDef c name b) = StmtNode (FuncDef c name b) # trace_block R opts b"
| "trace_stmt R opts (ClassDef c name b) = StmtNode (ClassDef c name b) # trace_block R opts b"
| "trace_stmt R opts (BlockStmt b) = trace_block R opts b"
| "trace_block R opts (Block c u ss) =
     BlockNode (Block c u ss) # (if u then [] else trace_stmts R opts ss)"
| "trace_opt_block R opts None = []"
| "trace_opt_block R opts (Some b) = trace_block R opts b"
| "trace_stmts R opts [] = []"
| "trace_stmts R opts (s # ss) = trace_stmt R opts s @ trace_stmts R opts ss"
| "trace_blocks R opts [] = []"
| "trace_blocks R opts (b # bs) = trace_block R opts b @ trace_blocks R opts bs"
  by pat_completeness auto

termination
  by (relation "measure (\<lambda>x. case x of
        Inl (Inl (R, opts, s)) \<Rightarrow> size s
      | Inl (Inr (R, opts, b)) \<Rightarrow> size b
      | Inr (Inl (R, opts, eb)) \<Rightarrow> size_option size eb
      | Inr (Inr (Inl (R, opts, ss))) \<Rightarrow> size_list size ss
      | Inr (Inr (Inr (R, opts, bs))) \<Rightarrow> size_list size bs)")
     (simp_all add: size_tag_blocks size_option_set_unreachable)

section \<open>An instance for concrete modules\<close>

text \<open>
  Modelled from the spec: the reachability functions of \<^verbatim>\<open>mypy.reachability\<close>
  decide from the configuration whether a guard is statically true, statically
  false or undetermined, and comparisons of the platform are among the guards they
  evaluate. In this instance a guard compares the configured platform with a
  literal or is opaque. The arm of a statically false guard is tagged unreachable
  and every other tag is left as it is; an assert always fails when its condition
  is statically false.
\<close>

datatype guard = PlatformEq string | Opaque string

fun statically_false :: "options \<Rightarrow> guard \<Rightarrow> bool" where
  "statically_false opts (PlatformEq p) = (platform opts \<noteq> p)"
| "statically_false opts (Opaque x) = False"

fun platform_assert_fails :: "guard stmt \<Rightarrow> options \<Rightarrow> bool" where
  "platform_assert_fails (AssertStmt c e m) opts = statically_false opts e"
| "platform_assert_fails s opts = False"

fun platform_if_tags :: "guard stmt \<Rightarrow> options \<Rightarrow> (nat \<Rightarrow> bool) \<times> bool" where
  "platform_if_tags (IfStmt c es bs eb) opts =
     (\<lambda>i. i < length bs \<and>
        (is_unreachable (bs ! i) \<or> (i < length es \<and> statically_false opts (es ! i))),
      case eb of None \<Rightarrow> False | Some b \<Rightarrow> is_unreachable b)"
| "platform_if_tags s opts = (\<lambda>i. False, False)"

fun platform_match_tags :: "guard stmt \<Rightarrow> options \<Rightarrow> nat \<Rightarrow> bool" where
  "platform_match_tags (MatchStmt c e gs bs) opts = (\<lambda>i. i < length bs \<and> is_unreachable (bs ! i))"
| "platform_match_tags s opts = (\<lambda>i. False)"

definition platform_reachability :: "guard reachability" where
  "platform_reachability =
     \<lparr>assert_will_always_fail = platform_assert_fails,
      infer_reachability_of_if_statement = platform_if_tags,
      infer_reachability_of_match_statement = platform_match_tags\<rparr>"

definition linux :: options where
  "linux = \<lparr>platform = ''linux'', python_version = (3, 12)\<rparr>"

text \<open>A node on the lines \<open>a\<close> to \<open>b\<close>, and a node without an end line.\<close>

definition lines :: "int \<Rightarrow> int \<Rightarrow> Context" where
  "lines a b = \<lparr>line = a, end_line = Some b\<rparr>"

definition line_only :: "int \<Rightarrow> Context" where
  "line_only a = \<lparr>line = a, end_line = None\<rparr>"

text \<open>
  A module as the parser leaves it, with the stub-package flag and the import tags
  still \<open>False\<close>, and a visitor that has not been used.
\<close>

definition parsed :: "guard stmt list \<Rightarrow> bool \<Rightarrow> bool \<Rightarrow> guard MypyFile" where
  "parsed ds stub init =
     \<lparr>defs = ds, is_stub = stub, is_package_init_file = init,
      is_partial_stub_package = False, file_skipped_lines = {}\<rparr>"

definition unused :: "guard visitor" where
  "unused =
     \<lparr>self_platform = [], cur_mod_id = [], cur_mod_node = parsed [] False False,
      self_options = linux, is_global_scope = True, skipped_lines = {}, visited = []\<rparr>"

section \<open>Basic facts about the walker\<close>

lemma visit_opt_expr_eq:
  "visit_opt_expr m st = st\<lparr>visited := visited st @ map ExprNode (case m of None \<Rightarrow> [] | Some e \<Rightarrow> [e])\<rparr>"
  by (cases m) (simp_all add: visit_expr_def enter_def)

lemma fold_visit_expr: "fold visit_expr es st = st\<lparr>visited := visited st @ map ExprNode es\<rparr>"
  by (induction es arbitrary: st) (simp_all add: visit_expr_def enter_def)

lemma fold_visit_opt_expr:
  "fold visit_opt_expr gs st = st\<lparr>visited := visited st @ map ExprNode (List.map_filter id gs)\<rparr>"
proof (induction gs arbitrary: st)
  case Nil
  show ?case by (simp add: List.map_filter_simps)
next
  case (Cons g gs)
  show ?case by (cases g) (simp_all add: Cons.IH List.map_filter_simps visit_expr_def enter_def)
qed

lemmas step_simps = enter_def visit_expr_def visit_opt_expr_eq fold_visit_expr fold_visit_opt_expr

lemma scope_frame:
  "is_global_scope (snd (accept R s st)) = is_global_scope st"
  "is_global_scope (snd (visit_block R b st)) = is_global_scope st"
  "is_global_scope (snd (visit_opt_block R eb st)) = is_global_scope st"
  "is_global_scope (snd (visit_stmts R ss st)) = is_global_scope st"
  "is_global_scope (snd (visit_blocks R bs st)) = is_global_scope st"
  by (induction R s st and R b st and R eb st and R ss st and R bs st
      rule: accept_visit_block_visit_opt_block_visit_stmts_visit_blocks.induct)
    (auto simp add: Let_def step_simps split: option.splits)

lemma options_frame:
  "self_options (snd (accept R s st)) = self_options st"
  "self_options (snd (visit_block R b st)) = self_options st"
  "self_options (snd (visit_opt_block R eb st)) = self_options st"
  "self_options (snd (visit_stmts R ss st)) = self_options st"
  "self_options (snd (visit_blocks R bs st)) = self_options st"
  by (induction R s st and R b st and R eb st and R ss st and R bs st
      rule: accept_visit_block_visit_opt_block_visit_stmts_visit_blocks.induct)
    (auto simp add: Let_def step_simps split: option.splits)

lemma ids_frame:
  "self_platform (snd (accept R s st)) = self_platform st \<and> cur_mod_id (snd (accept R s st)) = cur_mod_id st"
  "self_platform (snd (visit_block R b st)) = self_platform st \<and> cur_mod_id (snd (visit_block R b st)) = cur_mod_id st"
  "self_platform (snd (visit_opt_block R eb st)) = self_platform st \<and> cur_mod_id (snd (visit_opt_block R eb st)) = cur_mod_id st"
  "self_platform (snd (visit_stmts R ss st)) = self_platform st \<and> cur_mod_id (snd (visit_stmts R ss st)) = cur_mod_id st"
  "self_platform (snd (visit_blocks R bs st)) = self_platform st \<and> cur_mod_id (snd (visit_blocks R bs st)) = cur_mod_id st"
  by (induction R s st and R b st and R eb st and R ss st and R bs st
      rule: accept_visit_block_visit_opt_block_visit_stmts_visit_blocks.induct)
    (auto simp add: Let_def step_simps split: option.splits)

lemma same_module_simps:
  "same_module f f"
  "same_module (f\<lparr>is_partial_stub_package := x\<rparr>) g = same_module f g"
  by (simp_all add: same_module_def)

lemma module_frame:
  "same_module (cur_mod_node (snd (accept R s st))) f = same_module (cur_mod_node st) f"
  "same_module (cur_mod_node (snd (visit_block R b st))) f = same_module (cur_mod_node st) f"
  "same_module (cur_mod_node (snd (visit_opt_block R eb st))) f = same_module (cur_mod_node st) f"
  "same_module (cur_mod_node (snd (visit_stmts R ss st))) f = same_module (cur_mod_node st) f"
  "same_module (cur_mod_node (snd (visit_blocks R bs st))) f = same_module (cur_mod_node st) f"
  by (induction R s st and R b st and R eb st and R ss st and R bs st
      rule: accept_visit_block_visit_opt_block_visit_stmts_visit_blocks.induct)
    (auto simp add: Let_def step_simps same_module_simps split: option.splits)

lemma module_fields:
  "is_stub (cur_mod_node (snd (accept R s st))) = is_stub (cur_mod_node st)"
  "is_package_init_file (cur_mod_node (snd (accept R s st))) = is_package_init_file (cur_mod_node st)"
  "is_stub (cur_mod_node (snd (visit_block R b st))) = is_stub (cur_mod_node st)"
  "is_package_init_file (cur_mod_node (snd (visit_block R b st))) = is_package_init_file (cur_mod_node st)"
  "is_stub (cur_mod_node (snd (visit_opt_block R eb st))) = is_stub (cur_mod_node st)"
  "is_package_init_file (cur_mod_node (snd (visit_opt_block R eb st))) = is_package_init_file (cur_mod_node st)"
  "is_stub (cur_mod_node (snd (visit_stmts R ss st))) = is_stub (cur_mod_node st)"
  "is_package_init_file (cur_mod_node (snd (visit_stmts R ss st))) = is_package_init_file (cur_mod_node st)"
  "is_stub (cur_mod_node (snd (visit_blocks R bs st))) = is_stub (cur_mod_node st)"
  "is_package_init_file (cur_mod_node (snd (visit_blocks R bs st))) = is_package_init_file (cur_mod_node st)"
  using module_frame(1) [of R s st "cur_mod_node st"] module_frame(2) [of R b st "cur_mod_node st"]
    module_frame(3) [of R eb st "cur_mod_node st"]
    module_frame(4) [of R ss st "cur_mod_node st"] module_frame(5) [of R bs st "cur_mod_node st"]
  by (simp_all add: same_module_def)

lemma stub_flag:
  "is_partial_stub_package (cur_mod_node (snd (accept R s st))) =
     (is_partial_stub_package (cur_mod_node st) \<or>
      (is_global_scope st \<and> is_stub (cur_mod_node st) \<and> is_package_init_file (cur_mod_node st)
       \<and> defines_getattr (fst (accept R s st))))"
  "is_partial_stub_package (cur_mod_node (snd (visit_block R b st))) =
     (is_partial_stub_package (cur_mod_node st) \<or>
      (is_global_scope st \<and> is_stub (cur_mod_node st) \<and> is_package_init_file (cur_mod_node st)
       \<and> defines_getattr_block (fst (visit_block R b st))))"
  "is_partial_stub_package (cur_mod_node (snd (visit_opt_block R eb st))) =
     (is_partial_stub_package (cur_mod_node st) \<or>
      (is_global_scope st \<and> is_stub (cur_mod_node st) \<and> is_package_init_file (cur_mod_node st)
       \<and> (\<exists>b' \<in> set_option (fst (visit_opt_block R eb st)). defines_getattr_block b')))"
  "is_partial_stub_package (cur_mod_node (snd (visit_stmts R ss st))) =
     (is_partial_stub_package (cur_mod_node st) \<or>
      (is_global_scope st \<and> is_stub (cur_mod_node st) \<and> is_package_init_file (cur_mod_node st)
       \<and> (\<exists>s' \<in> set (fst (visit_stmts R ss st)). defines_getattr s')))"
  "is_partial_stub_package (cur_mod_node (snd (visit_blocks R bs st))) =
     (is_partial_stub_package (cur_mod_node st) \<or>
      (is_global_scope st \<and> is_stub (cur_mod_node st) \<and> is_package_init_file (cur_mod_node st)
       \<and> (\<exists>b' \<in> set (fst (visit_blocks R bs st)). defines_getattr_block b')))"
  by (induction R s st and R b st and R eb st and R ss st and R bs st
      rule: accept_visit_block_visit_opt_block_visit_stmts_visit_blocks.induct)
    (auto simp add: Let_def step_simps scope_frame module_fields split: option.splits)


lemma pruned_lines_append: "pruned_lines (xs @ ys) = pruned_lines xs \<union> pruned_lines ys"
  by (induction xs rule: pruned_lines.induct) auto

lemma pruned_lines_exprs: "pruned_lines (map ExprNode es) = {}"
  by (induction es) simp_all

lemma range_set_closed: "range_set a (e + 1) = {a..e}"
  by (auto simp: range_set_def)

lemma range_set_span: "end_line c = Some e \<Longrightarrow> range_set (line c) (e + 1) = span c"
  by (simp add: range_set_closed span_def)

lemma skipped_trace:
  "skipped_lines (snd (accept R s st)) = skipped_lines st \<union> pruned_lines (trace_stmt R (self_options st) s)"
  "skipped_lines (snd (visit_block R b st)) = skipped_lines st \<union> pruned_lines (trace_block R (self_options st) b)"
  "skipped_lines (snd (visit_opt_block R eb st)) = skipped_lines st \<union> pruned_lines (trace_opt_block R (self_options st) eb)"
  "skipped_lines (snd (visit_stmts R ss st)) = skipped_lines st \<union> pruned_lines (trace_stmts R (self_options st) ss)"
  "skipped_lines (snd (visit_blocks R bs st)) = skipped_lines st \<union> pruned_lines (trace_blocks R (self_options st) bs)"
  by (induction R s st and R b st and R eb st and R ss st and R bs st
      rule: accept_visit_block_visit_opt_block_visit_stmts_visit_blocks.induct)
    (auto simp add: Let_def step_simps options_frame pruned_lines_append pruned_lines_exprs
        range_set_span span_def Un_assoc split: option.splits)

lemma tags_after:
  "imports_tagged (is_global_scope st) (fst (accept R s st))"
  "imports_tagged_block (is_global_scope st) (fst (visit_block R b st))"
  "\<forall>b' \<in> set_option (fst (visit_opt_block R eb st)). imports_tagged_block (is_global_scope st) b'"
  "\<forall>s' \<in> set (fst (visit_stmts R ss st)). imports_tagged (is_global_scope st) s'"
  "\<forall>b' \<in> set (fst (visit_blocks R bs st)). imports_tagged_block (is_global_scope st) b'"
  by (induction R s st and R b st and R eb st and R ss st and R bs st
      rule: accept_visit_block_visit_opt_block_visit_stmts_visit_blocks.induct)
    (auto simp add: Let_def step_simps scope_frame split: option.splits)

lemma accept_assert: "is_AssertStmt s \<Longrightarrow> fst (accept R s st) = s"
  by (cases s) simp_all

lemma accept_is_assert: "is_AssertStmt (fst (accept R s st)) = is_AssertStmt s"
  by (cases s) (simp_all add: Let_def)

lemma failing_assert_accept: "failing_assert R opts (fst (accept R s st)) = failing_assert R opts s"
  using accept_assert [of s R st] accept_is_assert [of R s st]
  by (auto simp: failing_assert_def)

lemma visit_stmts_length: "length (fst (visit_stmts R ss st)) = length ss"
  by (induction ss arbitrary: st) (simp_all add: Let_def)

lemma visit_blocks_length: "length (fst (visit_blocks R bs st)) = length bs"
  by (induction bs arbitrary: st) (simp_all add: Let_def)

lemma visit_block_shape:
  "block_context (fst (visit_block R b st)) = block_context b"
  "is_unreachable (fst (visit_block R b st)) = is_unreachable b"
  "length (body (fst (visit_block R b st))) = length (body b)"
  by (cases b; simp add: Let_def visit_stmts_length)+

lemma accept_context: "stmt_context (fst (accept R s st)) = stmt_context s"
  by (cases s) (simp_all add: Let_def visit_block_shape)

lemma visit_stmts_contexts:
  "map stmt_context (fst (visit_stmts R ss st)) = map stmt_context ss"
  by (induction ss arbitrary: st) (simp_all add: Let_def accept_context)

lemma visit_stmts_append:
  "visit_stmts R (xs @ ys) st =
     (fst (visit_stmts R xs st) @ fst (visit_stmts R ys (snd (visit_stmts R xs st))),
      snd (visit_stmts R ys (snd (visit_stmts R xs st))))"
  by (induction xs arbitrary: st) (simp_all add: Let_def)

lemma visit_defs_append:
  "\<forall>s \<in> set pre. \<not> failing_assert R opts s \<Longrightarrow>
   visit_defs R opts (pre @ rest) st =
     (fst (visit_stmts R pre st) @ fst (visit_defs R opts rest (snd (visit_stmts R pre st))),
      snd (visit_defs R opts rest (snd (visit_stmts R pre st))))"
proof (induction pre arbitrary: st)
  case Nil
  show ?case by simp
next
  case (Cons d pre)
  have d: "\<not> failing_assert R opts (fst (accept R d st))"
    using Cons.prems by (simp add: failing_assert_accept)
  have "\<forall>s \<in> set pre. \<not> failing_assert R opts s"
    using Cons.prems by simp
  note IH = Cons.IH [OF this]
  have "visit_defs R opts (d # (pre @ rest)) st =
      (fst (accept R d st) # fst (visit_defs R opts (pre @ rest) (snd (accept R d st))),
       snd (visit_defs R opts (pre @ rest) (snd (accept R d st))))"
    using d by (auto simp: Let_def failing_assert_def)
  then show ?case
    by (simp add: IH Let_def)
qed

lemma visit_defs_no_assert:
  "\<forall>s \<in> set ds. \<not> failing_assert R opts s \<Longrightarrow> visit_defs R opts ds st = visit_stmts R ds st"
  using visit_defs_append [of ds R opts "[]" st] by simp

lemma visit_defs_truncate:
  assumes "\<forall>s \<in> set pre. \<not> failing_assert R opts s" and "failing_assert R opts a"
  shows "visit_defs R opts (pre @ a # post) st =
     (fst (visit_stmts R pre st) @ [a],
      (snd (visit_stmts R (pre @ [a]) st))
        \<lparr>skipped_lines := skipped_lines (snd (visit_stmts R (pre @ [a]) st)) \<union> removed_lines post\<rparr>)"
proof -
  define st1 where "st1 = snd (visit_stmts R pre st)"
  have a: "fst (accept R a st1) = a"
    using assms(2) by (simp add: failing_assert_def accept_assert)
  have "visit_defs R opts (a # post) st1 =
      ([a], (snd (accept R a st1))
        \<lparr>skipped_lines := skipped_lines (snd (accept R a st1)) \<union> removed_lines post\<rparr>)"
    using assms(2) a
    by (auto simp: Let_def failing_assert_def removed_lines_def span_def range_set_closed
        split: option.splits)
  then show ?thesis
    using visit_defs_append [OF assms(1), of "a # post" st]
    by (simp add: st1_def visit_stmts_append Let_def)
qed

lemma trace_block_head: "\<exists>l. trace_block R opts b = BlockNode b # l"
  by (cases b) simp



lemma visit_file_fields:
  "defs (fst (visit_file R self file fnam mod_id opts))
     = fst (visit_defs R opts (defs file) (visit_file_start self file mod_id opts))"
  "file_skipped_lines (fst (visit_file R self file fnam mod_id opts))
     = skipped_lines (snd (visit_defs R opts (defs file) (visit_file_start self file mod_id opts)))"
  "is_partial_stub_package (fst (visit_file R self file fnam mod_id opts))
     = is_partial_stub_package (cur_mod_node
         (snd (visit_defs R opts (defs file) (visit_file_start self file mod_id opts))))"
  "visited (snd (visit_file R self file fnam mod_id opts))
     = visited (snd (visit_defs R opts (defs file) (visit_file_start self file mod_id opts)))"
  "is_global_scope (snd (visit_file R self file fnam mod_id opts))
     = is_global_scope (snd (visit_defs R opts (defs file) (visit_file_start self file mod_id opts)))"
  by (simp_all add: visit_file_def Let_def)

lemma visit_stmts_snoc_assert:
  "is_AssertStmt a \<Longrightarrow> fst (visit_stmts R (pre @ [a]) st) = fst (visit_stmts R pre st) @ [a]"
  by (simp add: visit_stmts_append Let_def accept_assert)

lemma removed_lines_cases:
  "post \<noteq> [] \<Longrightarrow> removed_lines post =
     (case end_line (stmt_context (last post)) of
        Some e \<Rightarrow> {line (stmt_context (hd post))..e} | None \<Rightarrow> {})"
  by (simp add: removed_lines_def span_def split: option.splits)

lemma range_set_upto: "range_set a b = {a..b - 1}"
  by (auto simp: range_set_def)

lemmas concrete =
  visit_file_def visit_file_start_def unused_def parsed_def linux_def lines_def line_only_def
  platform_reachability_def enter_def visit_expr_def Let_def range_set_upto
  failing_assert_def removed_lines_def span_def

lemma visit_defs_cases:
  obtains (all) "\<forall>s \<in> set ds. \<not> failing_assert R opts s"
      and "visit_defs R opts ds st = visit_stmts R ds st"
  | (cut) pre a post where "ds = pre @ a # post" and "failing_assert R opts a"
      and "\<forall>s \<in> set pre. \<not> failing_assert R opts s"
      and "visit_defs R opts ds st =
         (fst (visit_stmts R (pre @ [a]) st),
          (snd (visit_stmts R (pre @ [a]) st))
            \<lparr>skipped_lines := skipped_lines (snd (visit_stmts R (pre @ [a]) st)) \<union> removed_lines post\<rparr>)"
proof (cases "\<exists>s \<in> set ds. failing_assert R opts s")
  case False
  then have none: "\<forall>s \<in> set ds. \<not> failing_assert R opts s" by simp
  show ?thesis
    using all [OF none visit_defs_no_assert [OF none]] .
next
  case True
  then obtain pre a post where split: "ds = pre @ a # post" "failing_assert R opts a"
      "\<forall>s \<in> set pre. \<not> failing_assert R opts s"
    using split_list_first_prop [of ds "failing_assert R opts"] by blast
  have a: "is_AssertStmt a"
    using split(2) by (simp add: failing_assert_def)
  show ?thesis
    using cut [OF split] visit_defs_truncate [OF split(3) split(2), of post st]
      visit_stmts_snoc_assert [OF a, of R pre st] split(1)
    by simp
qed

lemma pruned_lines_member:
  "x \<in> pruned_lines l \<longleftrightarrow> (\<exists>b. BlockNode b \<in> set l \<and> is_unreachable b \<and> x \<in> span (block_context b))"
  by (induction l rule: pruned_lines.induct) auto

lemma visit_defs_grows: "skipped_lines st \<subseteq> skipped_lines (snd (visit_defs R opts ds st))"
proof (cases rule: visit_defs_cases [of ds R opts st])
  case all
  then show ?thesis by (simp add: skipped_trace)
next
  case (cut pre a post)
  then show ?thesis by (auto simp: skipped_trace)
qed

lemma visit_defs_frame:
  "is_global_scope (snd (visit_defs R opts ds st)) = is_global_scope st"
  "is_stub (cur_mod_node (snd (visit_defs R opts ds st))) = is_stub (cur_mod_node st)"
  "is_package_init_file (cur_mod_node (snd (visit_defs R opts ds st)))
     = is_package_init_file (cur_mod_node st)"
  by (cases rule: visit_defs_cases [of ds R opts st]; simp add: scope_frame module_fields)+

lemma visit_defs_stub_flag:
  "is_partial_stub_package (cur_mod_node (snd (visit_defs R opts ds st))) =
     (is_partial_stub_package (cur_mod_node st) \<or>
      (is_global_scope st \<and> is_stub (cur_mod_node st) \<and> is_package_init_file (cur_mod_node st)
       \<and> (\<exists>s \<in> set (fst (visit_defs R opts ds st)). defines_getattr s)))"
  by (cases rule: visit_defs_cases [of ds R opts st]) (simp_all add: stub_flag(4))

lemma visit_defs_tags:
  "\<forall>s \<in> set (fst (visit_defs R opts ds st)). imports_tagged (is_global_scope st) s"
  by (cases rule: visit_defs_cases [of ds R opts st]) (simp_all add: tags_after(4))

lemma tag_blocks_length: "length (tag_blocks f k bs) = length bs"
  by (induction bs arbitrary: k) simp_all

lemma tag_blocks_nth: "i < length bs \<Longrightarrow> tag_blocks f k bs ! i = set_unreachable (f (k + i)) (bs ! i)"
proof (induction bs arbitrary: k i)
  case Nil
  then show ?case by simp
next
  case (Cons b bs)
  show ?case
  proof (cases i)
    case 0
    then show ?thesis by simp
  next
    case (Suc j)
    then show ?thesis using Cons.IH [of j "Suc k"] Cons.prems by simp
  qed
qed


lemma trace_opt_block_subseq:
  "subseq (map BlockNode (case eb of None \<Rightarrow> [] | Some b \<Rightarrow> [b])) (trace_opt_block R opts eb)"
proof (cases eb)
  case None
  then show ?thesis by simp
next
  case (Some b)
  obtain l where "trace_block R opts b = BlockNode b # l"
    using trace_block_head by blast
  then show ?thesis using Some by simp
qed



lemma visit_blocks_nth_pruned:
  "i < length bs \<Longrightarrow> is_unreachable (bs ! i) \<Longrightarrow> fst (visit_blocks R bs st) ! i = bs ! i"
proof (induction bs arbitrary: i st)
  case Nil
  then show ?case by simp
next
  case (Cons b bs)
  show ?case
  proof (cases i)
    case 0
    then show ?thesis using Cons.prems by (cases b) (simp add: Let_def)
  next
    case (Suc j)
    then show ?thesis using Cons.IH [of j] Cons.prems by (simp add: Let_def)
  qed
qed

lemma trace_blocks_member: "b \<in> set bs \<Longrightarrow> BlockNode b \<in> set (trace_blocks R opts bs)"
proof (induction bs)
  case Nil
  then show ?case by simp
next
  case (Cons b' bs)
  obtain l where "trace_block R opts b' = BlockNode b' # l"
    using trace_block_head by blast
  then show ?case using Cons by auto
qed

lemma visit_blocks_pruned_lines:
  assumes "i < length bs" and "is_unreachable (bs ! i)"
  shows "span (block_context (bs ! i)) \<subseteq> skipped_lines (snd (visit_blocks R bs st))"
proof -
  have "BlockNode (bs ! i) \<in> set (trace_blocks R (self_options st) bs)"
    using assms(1) by (simp add: trace_blocks_member)
  then have "span (block_context (bs ! i)) \<subseteq> pruned_lines (trace_blocks R (self_options st) bs)"
    using assms(2) by (auto simp: pruned_lines_member)
  then show ?thesis by (auto simp: skipped_trace)
qed

lemma visit_defs_cons_other:
  "\<not> is_AssertStmt d \<Longrightarrow> visit_defs R opts (d # rest) st =
     (fst (accept R d st) # fst (visit_defs R opts rest (snd (accept R d st))),
      snd (visit_defs R opts rest (snd (accept R d st))))"
  by (simp add: Let_def accept_is_assert)

section \<open>Blocks\<close>



section \<open>Repeated calls\<close>

text \<open>
  Claim C10. \<^verbatim>\<open>visit_file\<close> assigns every attribute of the visitor before it
  walks the module: the module-scope flag becomes true and the skipped-line set
  empty. So two calls with the same module, module id and options return the same
  module node (skipped-line set, truncated statements, tags, stub-package flag) and
  leave the same visitor, whatever state earlier calls left in the visitor.
\<close>

theorem visit_file_reinitializes:
  "visit_file R self1 file fnam1 mod_id opts = visit_file R self2 file fnam2 mod_id opts
   \<and> is_global_scope (visit_file_start self1 file mod_id opts)
   \<and> skipped_lines (visit_file_start self1 file mod_id opts) = {}"
proof -
  have start: "visit_file_start self1 file mod_id opts = visit_file_start self2 file mod_id opts"
    by (simp add: visit_file_start_def)
  have "visit_file R self1 file fnam1 mod_id opts = visit_file R self2 file fnam2 mod_id opts"
    by (simp add: visit_file_def start)
  moreover have "is_global_scope (visit_file_start self1 file mod_id opts)"
    by (simp add: visit_file_start_def)
  moreover have "skipped_lines (visit_file_start self1 file mod_id opts) = {}"
    by (simp add: visit_file_start_def)
  ultimately show ?thesis by simp
qed

section \<open>Truncation at an assert that always fails\<close>

text \<open>
  Claim C1, as written, fails. It says that the line span of the removed statements
  is not computed if any end line is unavailable. The code looks at one end line
  only, the one of the last statement: in the module below the first removed
  statement has no end line, and the lines 2 to 3 are recorded all the same.
\<close>

theorem truncation_span_counterexample:
  "end_line (stmt_context (Import (line_only 2) [''b''] False :: guard stmt)) = None
   \<and> file_skipped_lines (fst (visit_file platform_reachability unused
        (parsed [AssertStmt (lines 1 1) (PlatformEq ''lol'') None,
                 Import (line_only 2) [''b''] False,
                 Import (lines 3 3) [''c''] False] False False)
        ''m.py'' ''m'' linux)) = {2..3}"
  by (simp add: concrete)

text \<open>
  Claim C1, amended. Let the top-level statements be \<open>pre @ a # post\<close>, where \<open>a\<close> is
  the first assert for which \<^verbatim>\<open>assert_will_always_fail\<close> holds and \<open>post\<close> is not
  empty. After the pass the module holds exactly the statements of \<open>pre\<close>, as the
  walker left them and in their order, followed by \<open>a\<close>; every node is at the
  position it had. The skipped-line set is what the walk over \<open>pre\<close> and \<open>a\<close>
  collected, joined with every line from the start line of the first removed
  statement to the end line of the last one; nothing is added exactly when the end
  line of the last removed statement is unavailable, and no other end line is looked
  at.
\<close>

theorem truncation_keeps_prefix:
  assumes "defs f = pre @ a # post" and "post \<noteq> []"
    and "failing_assert R opts a" and "\<forall>s \<in> set pre. \<not> failing_assert R opts s"
  shows "defs (fst (visit_file R self f fnam mod_id opts))
           = fst (visit_stmts R pre (visit_file_start self f mod_id opts)) @ [a]
       \<and> map stmt_context (defs (fst (visit_file R self f fnam mod_id opts)))
           = map stmt_context (pre @ [a])
       \<and> file_skipped_lines (fst (visit_file R self f fnam mod_id opts))
           = skipped_lines (snd (visit_stmts R (pre @ [a]) (visit_file_start self f mod_id opts)))
             \<union> (case end_line (stmt_context (last post)) of
                  Some e \<Rightarrow> {line (stmt_context (hd post))..e} | None \<Rightarrow> {})"
proof -
  let ?st0 = "visit_file_start self f mod_id opts"
  have a: "is_AssertStmt a"
    using assms(3) by (simp add: failing_assert_def)
  have cut: "visit_defs R opts (defs f) ?st0 =
     (fst (visit_stmts R pre ?st0) @ [a],
      (snd (visit_stmts R (pre @ [a]) ?st0))
        \<lparr>skipped_lines := skipped_lines (snd (visit_stmts R (pre @ [a]) ?st0)) \<union> removed_lines post\<rparr>)"
    using visit_defs_truncate [OF assms(4) assms(3)] assms(1) by simp
  have 1: "defs (fst (visit_file R self f fnam mod_id opts)) = fst (visit_stmts R pre ?st0) @ [a]"
    by (simp add: visit_file_fields cut)
  have 2: "map stmt_context (defs (fst (visit_file R self f fnam mod_id opts)))
      = map stmt_context (pre @ [a])"
    by (simp add: 1 visit_stmts_contexts)
  have 3: "file_skipped_lines (fst (visit_file R self f fnam mod_id opts))
      = skipped_lines (snd (visit_stmts R (pre @ [a]) ?st0))
        \<union> (case end_line (stmt_context (last post)) of
             Some e \<Rightarrow> {line (stmt_context (hd post))..e} | None \<Rightarrow> {})"
    by (simp add: visit_file_fields cut removed_lines_cases [OF assms(2)])
  from 1 2 3 show ?thesis by simp
qed

theorem truncation_keeps_prefix_witness:
  "defs (fst (visit_file platform_reachability unused
        (parsed [Import (lines 1 1) [''a''] False,
                 AssertStmt (lines 2 2) (PlatformEq ''bogus'') None,
                 Import (lines 3 3) [''b''] False,
                 Import (lines 4 4) [''c''] False] False False)
        ''m.py'' ''m'' linux))
     = [Import (lines 1 1) [''a''] True, AssertStmt (lines 2 2) (PlatformEq ''bogus'') None]
   \<and> file_skipped_lines (fst (visit_file platform_reachability unused
        (parsed [Import (lines 1 1) [''a''] False,
                 AssertStmt (lines 2 2) (PlatformEq ''bogus'') None,
                 Import (lines 3 3) [''b''] False,
                 Import (lines 4 4) [''c''] False] False False)
        ''m.py'' ''m'' linux)) = {3..4}"
  using truncation_keeps_prefix [where R = platform_reachability and opts = linux
      and self = unused and fnam = "''m.py''" and mod_id = "''m''"
      and f = "parsed [Import (lines 1 1) [''a''] False,
                 AssertStmt (lines 2 2) (PlatformEq ''bogus'') None,
                 Import (lines 3 3) [''b''] False,
                 Import (lines 4 4) [''c''] False] False False"
      and pre = "[Import (lines 1 1) [''a''] False]"
      and a = "AssertStmt (lines 2 2) (PlatformEq ''bogus'') None"
      and post = "[Import (lines 3 3) [''b''] False, Import (lines 4 4) [''c''] False]"]
  by (simp add: concrete)

text \<open>
  Claim C7. If the first assert that always fails is the last top-level statement,
  the loop of \<^verbatim>\<open>visit_file\<close> does what a plain walk over all statements does:
  every statement stays, in its place, and the skipped-line set holds only what the
  walk itself collected.
\<close>

theorem no_truncation_when_assert_is_last:
  assumes "defs f = pre @ [a]"
    and "failing_assert R opts a" and "\<forall>s \<in> set pre. \<not> failing_assert R opts s"
  shows "visit_defs R opts (defs f) (visit_file_start self f mod_id opts)
           = visit_stmts R (defs f) (visit_file_start self f mod_id opts)
       \<and> defs (fst (visit_file R self f fnam mod_id opts))
           = fst (visit_stmts R pre (visit_file_start self f mod_id opts)) @ [a]
       \<and> map stmt_context (defs (fst (visit_file R self f fnam mod_id opts)))
           = map stmt_context (defs f)
       \<and> file_skipped_lines (fst (visit_file R self f fnam mod_id opts))
           = skipped_lines (snd (visit_stmts R (defs f) (visit_file_start self f mod_id opts)))"
proof -
  let ?st0 = "visit_file_start self f mod_id opts"
  have a: "is_AssertStmt a"
    using assms(2) by (simp add: failing_assert_def)
  have "visit_defs R opts (pre @ [a]) ?st0 =
     (fst (visit_stmts R pre ?st0) @ [a], snd (visit_stmts R (pre @ [a]) ?st0))"
    using visit_defs_truncate [OF assms(3) assms(2), of "[]" ?st0]
    by (simp add: removed_lines_def)
  then have same: "visit_defs R opts (pre @ [a]) ?st0 = visit_stmts R (pre @ [a]) ?st0"
    using visit_stmts_snoc_assert [OF a, of R pre ?st0]
    by (simp add: prod_eq_iff)
  have snoc: "fst (visit_stmts R (pre @ [a]) ?st0) = fst (visit_stmts R pre ?st0) @ [a]"
    using a by (rule visit_stmts_snoc_assert)
  show ?thesis
    by (simp add: visit_file_fields assms(1) same snoc visit_stmts_contexts)
qed

theorem no_truncation_when_assert_is_last_witness:
  "defs (fst (visit_file platform_reachability unused
        (parsed [Import (lines 1 1) [''a''] False,
                 AssertStmt (lines 2 2) (PlatformEq ''bogus'') None] False False)
        ''m.py'' ''m'' linux))
     = [Import (lines 1 1) [''a''] True, AssertStmt (lines 2 2) (PlatformEq ''bogus'') None]
   \<and> file_skipped_lines (fst (visit_file platform_reachability unused
        (parsed [Import (lines 1 1) [''a''] False,
                 AssertStmt (lines 2 2) (PlatformEq ''bogus'') None] False False)
        ''m.py'' ''m'' linux)) = {}"
  using no_truncation_when_assert_is_last [where R = platform_reachability and opts = linux
      and self = unused and fnam = "''m.py''" and mod_id = "''m''"
      and f = "parsed [Import (lines 1 1) [''a''] False,
                 AssertStmt (lines 2 2) (PlatformEq ''bogus'') None] False False"
      and pre = "[Import (lines 1 1) [''a''] False]"
      and a = "AssertStmt (lines 2 2) (PlatformEq ''bogus'') None"]
  by (simp add: concrete)



section \<open>The skipped-line set\<close>



section \<open>The stub-package flag\<close>

text \<open>
  Claim C4. At a function definition the flag becomes true exactly when it was true
  already or all four conditions hold there: the module-scope flag is true, the
  module is a stub, the name is \<^verbatim>\<open>__getattr__\<close>, the module is a package
  initializer. For the whole pass: the flag of the module is true afterwards exactly
  when it was true before or the module is a stub and a package initializer and the
  walker reached, outside every function and class body, a function definition named
  \<^verbatim>\<open>__getattr__\<close>. So with the flag false before the pass, making any one of the
  four conditions false leaves it false.
\<close>

theorem stub_package_flag_iff:
  "(is_partial_stub_package (cur_mod_node (snd (accept R (FuncDef c name b) st))) \<longleftrightarrow>
      is_partial_stub_package (cur_mod_node st)
      \<or> (is_global_scope st \<and> is_stub (cur_mod_node st) \<and> name = ''__getattr__''
         \<and> is_package_init_file (cur_mod_node st)))
   \<and> (is_partial_stub_package (fst (visit_file R self f fnam mod_id opts)) \<longleftrightarrow>
      is_partial_stub_package f
      \<or> (is_stub f \<and> is_package_init_file f
         \<and> (\<exists>s \<in> set (defs (fst (visit_file R self f fnam mod_id opts))). defines_getattr s)))"
proof -
  have "defines_getattr (fst (accept R (FuncDef c name b) st)) = (name = ''__getattr__'')"
    by (simp add: Let_def)
  then have 1: "is_partial_stub_package (cur_mod_node (snd (accept R (FuncDef c name b) st))) \<longleftrightarrow>
      is_partial_stub_package (cur_mod_node st)
      \<or> (is_global_scope st \<and> is_stub (cur_mod_node st) \<and> name = ''__getattr__''
         \<and> is_package_init_file (cur_mod_node st))"
    using stub_flag(1) [of R "FuncDef c name b" st] by blast
  have 2: "is_partial_stub_package (fst (visit_file R self f fnam mod_id opts)) \<longleftrightarrow>
      is_partial_stub_package f
      \<or> (is_stub f \<and> is_package_init_file f
         \<and> (\<exists>s \<in> set (defs (fst (visit_file R self f fnam mod_id opts))). defines_getattr s))"
    by (simp add: visit_file_fields visit_defs_stub_flag) (simp add: visit_file_start_def)
  from 1 2 show ?thesis by blast
qed

theorem stub_package_flag_iff_witness:
  "is_partial_stub_package (fst (visit_file platform_reachability unused
        (parsed [FuncDef (lines 1 1) ''__getattr__'' (Block (lines 1 1) False [])] True True)
        ''m.py'' ''m'' linux))
   \<and> \<not> is_partial_stub_package (fst (visit_file platform_reachability unused
        (parsed [FuncDef (lines 1 1) ''__getattr__'' (Block (lines 1 1) False [])] False True)
        ''m.py'' ''m'' linux))
   \<and> \<not> is_partial_stub_package (fst (visit_file platform_reachability unused
        (parsed [FuncDef (lines 1 1) ''__getattr__'' (Block (lines 1 1) False [])] True False)
        ''m.py'' ''m'' linux))
   \<and> \<not> is_partial_stub_package (fst (visit_file platform_reachability unused
        (parsed [FuncDef (lines 1 1) ''helper'' (Block (lines 1 1) False [])] True True)
        ''m.py'' ''m'' linux))
   \<and> \<not> is_partial_stub_package (fst (visit_file platform_reachability unused
        (parsed [ClassDef (lines 1 1) ''C'' (Block (lines 1 1) False [FuncDef (lines 1 1) ''__getattr__'' (Block (lines 1 1) False [])])] True True)
        ''m.py'' ''m'' linux))"
  using stub_package_flag_iff [where R = platform_reachability
      and opts = linux and self = unused and fnam = "''m.py''" and mod_id = "''m''"
      and f = "parsed [FuncDef (lines 1 1) ''__getattr__'' (Block (lines 1 1) False [])] True True"
      and c = "lines 1 1" and name = "''__getattr__''" and b = "Block (lines 1 1) False []"
      and st = unused]
  by (simp add: concrete)

section \<open>Top-level tags of imports\<close>

text \<open>
  Claim C5. Visiting an import, a from-import or a wildcard import writes the current
  module-scope flag to its top-level tag. The flag is true when the pass starts and
  when it ends, false inside the body of a function or class, and leaving a function
  or class restores the value it had on entry, not unconditionally true. So after
  the pass every import-like statement that the walker reached carries true if it
  is outside every function and class body and false if it is inside one, at any
  depth.
\<close>

theorem imports_tagged_by_scope:
  "(\<forall>s \<in> set (defs (fst (visit_file R self f fnam mod_id opts))). imports_tagged True s)
   \<and> fst (accept R (Import c ids t) st) = Import c ids (is_global_scope st)
   \<and> fst (accept R (ImportFrom c m ids t) st) = ImportFrom c m ids (is_global_scope st)
   \<and> fst (accept R (ImportAll c m t) st) = ImportAll c m (is_global_scope st)
   \<and> is_global_scope (snd (accept R (FuncDef c name b) st)) = is_global_scope st
   \<and> is_global_scope (snd (accept R (ClassDef c name b) st)) = is_global_scope st
   \<and> is_global_scope (snd (visit_file R self f fnam mod_id opts))"
proof -
  have start: "is_global_scope (visit_file_start self f mod_id opts)"
    by (simp add: visit_file_start_def)
  have 1: "\<forall>s \<in> set (defs (fst (visit_file R self f fnam mod_id opts))). imports_tagged True s"
    using visit_defs_tags [of R opts "defs f" "visit_file_start self f mod_id opts"] start
    by (simp add: visit_file_fields)
  have 2: "is_global_scope (snd (visit_file R self f fnam mod_id opts))"
    by (simp add: visit_file_fields visit_defs_frame start)
  show ?thesis
    using 1 2 scope_frame(1) [of R "FuncDef c name b" st] scope_frame(1) [of R "ClassDef c name b" st]
    by simp
qed

theorem imports_tagged_by_scope_witness:
  "defs (fst (visit_file platform_reachability unused
        (parsed [Import (lines 1 1) [''a''] False,
                 FuncDef (lines 2 5) ''f'' (Block (lines 3 5) False
                   [Import (lines 3 3) [''b''] False,
                    FuncDef (lines 4 4) ''g'' (Block (lines 4 4) False
                      [Import (lines 4 4) [''c''] False]),
                    ImportAll (lines 5 5) ''d'' False]),
                 ClassDef (lines 6 7) ''C'' (Block (lines 7 7) False
                   [ImportFrom (lines 7 7) ''e'' [''x''] False]),
                 ImportFrom (lines 8 8) ''z'' [''y''] False] False False)
        ''m.py'' ''m'' linux))
     = [Import (lines 1 1) [''a''] True,
        FuncDef (lines 2 5) ''f'' (Block (lines 3 5) False
          [Import (lines 3 3) [''b''] False,
           FuncDef (lines 4 4) ''g'' (Block (lines 4 4) False
             [Import (lines 4 4) [''c''] False]),
           ImportAll (lines 5 5) ''d'' False]),
        ClassDef (lines 6 7) ''C'' (Block (lines 7 7) False
          [ImportFrom (lines 7 7) ''e'' [''x''] False]),
        ImportFrom (lines 8 8) ''z'' [''y''] True]"
  using imports_tagged_by_scope [where R = platform_reachability
      and opts = linux and self = unused and fnam = "''m.py''" and mod_id = "''m''"
      and f = "parsed [Import (lines 1 1) [''a''] False,
                 FuncDef (lines 2 5) ''f'' (Block (lines 3 5) False
                   [Import (lines 3 3) [''b''] False,
                    FuncDef (lines 4 4) ''g'' (Block (lines 4 4) False
                      [Import (lines 4 4) [''c''] False]),
                    ImportAll (lines 5 5) ''d'' False]),
                 ClassDef (lines 6 7) ''C'' (Block (lines 7 7) False
                   [ImportFrom (lines 7 7) ''e'' [''x''] False]),
                 ImportFrom (lines 8 8) ''z'' [''y''] False] False False"
      and st = unused and c = "lines 1 1" and ids = "[]" and t = False and m = "[]"
      and name = "[]" and b = "Block (lines 1 1) False []"]
  by (simp add: concrete)

section \<open>Conditionals\<close>



text \<open>
  Claim C3, as written, fails. In a module checked for the platform \<^verbatim>\<open>linux\<close>,
  the body of an \<^verbatim>\<open>if\<close> guarded on the platform being \<^verbatim>\<open>win32\<close> is tagged
  unreachable, so the walker does not descend into it and never visits the import
  inside: the import's top-level tag is not set to true, it keeps the value the
  parser gave it.
\<close>

theorem platform_guarded_import_counterexample:
  "defs (fst (visit_file platform_reachability unused
        (parsed [IfStmt (lines 1 2) [PlatformEq ''win32'']
                   [Block (lines 2 2) False [Import (lines 2 2) [''xyz''] False]] None] False False)
        ''m.py'' ''m'' linux))
     = [IfStmt (lines 1 2) [PlatformEq ''win32'']
          [Block (lines 2 2) True [Import (lines 2 2) [''xyz''] False]] None]"
  by (simp add: concrete)

text \<open>
  Claim C3, amended. Let a top-level if statement have an arm that the reachability
  function tags unreachable (as for a guard on \<^verbatim>\<open>win32\<close> under the platform
  \<^verbatim>\<open>linux\<close>), and let no top-level statement before it be an assert that always
  fails, so that the truncation rule does not cut the statement off. After the pass
  the arm's block is marked unreachable, its statements are as they were before the
  pass, so an import among them keeps the top-level tag it had, and the lines of
  the block, from its start line to its end line, are in the skipped-line set when
  the block has an end line.
\<close>

theorem unreachable_arm_is_recorded_not_visited:
  assumes "defs f = pre @ IfStmt c es bs eb # post"
    and "\<forall>s \<in> set pre. \<not> failing_assert R opts s"
    and "i < length bs"
    and "fst (infer_reachability_of_if_statement R (IfStmt c es bs eb) opts) i"
  shows "\<exists>bs' eb'. defs (fst (visit_file R self f fnam mod_id opts)) ! length pre = IfStmt c es bs' eb'
       \<and> bs' ! i = set_unreachable True (bs ! i)
       \<and> is_unreachable (bs' ! i) \<and> body (bs' ! i) = body (bs ! i)
       \<and> span (block_context (bs ! i)) \<subseteq> file_skipped_lines (fst (visit_file R self f fnam mod_id opts))"
proof -
  let ?st0 = "visit_file_start self f mod_id opts"
  let ?st1 = "snd (visit_stmts R pre ?st0)"
  let ?s = "IfStmt c es bs eb"
  let ?tags = "infer_reachability_of_if_statement R ?s opts"
  let ?bs = "tag_blocks (fst ?tags) 0 bs"
  let ?st2 = "?st1\<lparr>visited := visited ?st1 @ StmtNode ?s # map ExprNode es\<rparr>"
  let ?eb = "map_option (set_unreachable (snd ?tags)) eb"
  note accept.simps [simp del]
  have opts: "self_options ?st1 = opts"
    by (simp add: options_frame visit_file_start_def)
  have step: "accept R ?s ?st1 =
      (IfStmt c es (fst (visit_blocks R ?bs ?st2))
         (fst (visit_opt_block R ?eb (snd (visit_blocks R ?bs ?st2)))),
       snd (visit_opt_block R ?eb (snd (visit_blocks R ?bs ?st2))))"
    by (simp add: accept.simps Let_def opts enter_def fold_visit_expr)
  have cons: "visit_defs R opts (?s # post) ?st1 =
      (fst (accept R ?s ?st1) # fst (visit_defs R opts post (snd (accept R ?s ?st1))),
       snd (visit_defs R opts post (snd (accept R ?s ?st1))))"
    by (rule visit_defs_cons_other) simp
  have all: "visit_defs R opts (defs f) ?st0 =
      (fst (visit_stmts R pre ?st0) @ fst (accept R ?s ?st1)
         # fst (visit_defs R opts post (snd (accept R ?s ?st1))),
       snd (visit_defs R opts post (snd (accept R ?s ?st1))))"
    by (simp only: assms(1) visit_defs_append [OF assms(2)] cons fst_conv snd_conv)
  have at: "defs (fst (visit_file R self f fnam mod_id opts)) ! length pre = fst (accept R ?s ?st1)"
    using nth_append_length [of "fst (visit_stmts R pre ?st0)"]
    by (simp add: visit_file_fields all visit_stmts_length)
  have tagged: "?bs ! i = set_unreachable True (bs ! i)"
    using tag_blocks_nth [OF assms(3), of "fst ?tags" 0] assms(4) by simp
  have dead: "is_unreachable (?bs ! i)"
    by (cases "bs ! i") (simp add: tagged)
  have i: "i < length ?bs"
    using assms(3) by (simp add: tag_blocks_length)
  have kept: "fst (visit_blocks R ?bs ?st2) ! i = set_unreachable True (bs ! i)"
    using visit_blocks_nth_pruned [OF i dead, of R ?st2] tagged by simp
  have "span (block_context (?bs ! i)) \<subseteq> skipped_lines (snd (visit_blocks R ?bs ?st2))"
    using i dead by (rule visit_blocks_pruned_lines)
  also have "\<dots> \<subseteq> skipped_lines (snd (accept R ?s ?st1))"
    by (simp add: step skipped_trace)
  also have "\<dots> \<subseteq> skipped_lines (snd (visit_defs R opts post (snd (accept R ?s ?st1))))"
    by (rule visit_defs_grows)
  finally have lines: "span (block_context (bs ! i))
      \<subseteq> file_skipped_lines (fst (visit_file R self f fnam mod_id opts))"
    by (cases "bs ! i") (simp add: visit_file_fields all tagged)
  have "is_unreachable (set_unreachable True (bs ! i))"
      "body (set_unreachable True (bs ! i)) = body (bs ! i)"
    by (cases "bs ! i"; simp)+
  with at step kept lines show ?thesis by simp
qed

theorem unreachable_arm_is_recorded_not_visited_witness:
  "defs (fst (visit_file platform_reachability unused
        (parsed [IfStmt (lines 1 2) [PlatformEq ''win32'']
                   [Block (lines 2 2) False [Import (lines 2 2) [''xyz''] False]] None] False False)
        ''m.py'' ''m'' linux))
     = [IfStmt (lines 1 2) [PlatformEq ''win32'']
          [Block (lines 2 2) True [Import (lines 2 2) [''xyz''] False]] None]
   \<and> file_skipped_lines (fst (visit_file platform_reachability unused
        (parsed [IfStmt (lines 1 2) [PlatformEq ''win32'']
                   [Block (lines 2 2) False [Import (lines 2 2) [''xyz''] False]] None] False False)
        ''m.py'' ''m'' linux)) = {2..2}"
  using unreachable_arm_is_recorded_not_visited [where R = platform_reachability
      and opts = linux and self = unused and fnam = "''m.py''" and mod_id = "''m''"
      and f = "parsed [IfStmt (lines 1 2) [PlatformEq ''win32'']
                   [Block (lines 2 2) False [Import (lines 2 2) [''xyz''] False]] None] False False"
      and pre = "[]" and post = "[]" and i = 0 and c = "lines 1 2"
      and es = "[PlatformEq ''win32'']"
      and bs = "[Block (lines 2 2) False [Import (lines 2 2) [''xyz''] False]]"
      and eb = None]
  by (simp add: concrete)

end
